theory Spec2Isabelle
  imports Complex_Main "HOL-Library.Char_ord" "HOL-Library.List_Lexorder"
begin

unbundle bit_operations_syntax

section \<open>Data model of \<^verbatim>\<open>snakemq/queues.py\<close>\<close>

text \<open>
  The module is read as the Python 3 program it is when run today: \<^verbatim>\<open>dict.items()\<close> is a
  view of the dictionary, and \<^verbatim>\<open>sqlite3\<close> raises on every use of a closed connection,
  \<^verbatim>\<open>close()\<close> of its cursor included.
\<close>

text \<open>
  The exceptions the modelled paths raise.  \<open>AttributeError\<close>: an attribute read on
  \<^verbatim>\<open>None\<close> or on a string.  \<open>TypeError\<close>: \<^verbatim>\<open>time.time() - None\<close>.  \<open>OverflowError\<close>: an
  integer bound to a statement that does not fit the 64 bits of SQLite.
  \<open>ProgrammingError\<close>: \<^verbatim>\<open>sqlite3\<close> used after \<^verbatim>\<open>close()\<close>.  \<open>OperationalError\<close>: a fault of
  the medium reported by \<^verbatim>\<open>sqlite3\<close>.  \<open>RuntimeError\<close>: a dictionary that changed size
  under its iterator.  \<open>ManagerClosedError\<close> is named by the specification only; no path of
  the module raises it.
\<close>

datatype error =
  AttributeError | TypeError | OverflowError | ProgrammingError | OperationalError
  | RuntimeError | ManagerClosedError

text \<open>
  Numbers.  \<^verbatim>\<open>item.ttl\<close> is whatever number the caller stored (a float, an integer), and
  \<^verbatim>\<open>time.time()\<close> returns a float.  The type \<open>'n\<close> stands for these Python values, and
  the three things the module does with them are taken as they are in Python, with no
  property assumed:
  \<^item> \<open>py_sub a b\<close> is \<^verbatim>\<open>a - b\<close>: on floats the rounded difference, with an integer
    operand converted first, or the exception the subtraction raises;
  \<^item> \<open>py_ge0 a\<close> is \<^verbatim>\<open>a >= 0\<close>, or the exception the comparison raises;
  \<^item> \<open>py_real_column a\<close> is the value read back from a \<^verbatim>\<open>REAL\<close> column after \<open>a\<close> was
    bound to it (a float comes back as it is, an integer as the nearest float), or the
    exception the binding raises (an integer beyond 64 bits).
  \<^verbatim>\<open>flags\<close> is an unbounded Python integer, modelled as \<open>int\<close>; \<open>AND\<close> on \<open>int\<close> is the
  two's complement conjunction, as Python's \<^verbatim>\<open>&\<close>.
\<close>

record 'n python =
  py_sub :: "'n \<Rightarrow> 'n \<Rightarrow> error + 'n"
  py_ge0 :: "'n \<Rightarrow> error + bool"
  py_real_column :: "'n \<Rightarrow> error + 'n"

text \<open>
  \<^verbatim>\<open>class Item\<close>: four attributes.  An \<open>Item\<close> value is the content of one object; the
  objects themselves live in the heap below, since \<^verbatim>\<open>Queue.connect\<close> assigns to
  \<^verbatim>\<open>item.ttl\<close> in place and the caller, the queue list and the lists handed to the storage
  all hold the same object.
\<close>

record 'n Item =
  uuid :: string
  data :: string
  ttl :: 'n
  flags :: int

definition FLAG_PERSISTENT :: int where
  "FLAG_PERSISTENT = 1"

text \<open>The truth value of \<^verbatim>\<open>item.flags & FLAG_PERSISTENT\<close>.\<close>

definition persistent :: "'n Item \<Rightarrow> bool" where
  "persistent it \<longleftrightarrow> (flags it AND FLAG_PERSISTENT) \<noteq> 0"

type_synonym ref = nat

text \<open>
  The heap of \<open>Item\<close> objects: \<open>cells h r\<close> is the content of the object at address \<open>r\<close>,
  \<open>used h\<close> the number of objects created so far (a new object gets the address \<open>used h\<close>).
\<close>

record 'n heap =
  cells :: "ref \<Rightarrow> 'n Item"
  used :: nat

text \<open>\<^verbatim>\<open>Item(uuid, data, ttl, flags)\<close>: a new object.\<close>

definition new_Item :: "'n Item \<Rightarrow> 'n heap \<Rightarrow> ref \<times> 'n heap" where
  "new_Item it h = (used h, h\<lparr>cells := (cells h)(used h := it), used := Suc (used h)\<rparr>)"

text \<open>
  What a Python variable of this module can hold where the code reads \<^verbatim>\<open>.uuid\<close> from it:
  an \<open>Item\<close> object, or a string (\<^verbatim>\<open>Queue.pop\<close> passes \<^verbatim>\<open>[item.uuid]\<close>).
\<close>

datatype pyobj = Obj ref | Str string

section \<open>\<^verbatim>\<open>SqliteQueuesStorage\<close>\<close>

text \<open>
  One row of the table \<^verbatim>\<open>items (queue_name TEXT, uuid TEXT, data TEXT, ttl REAL,
  flags INTEGER)\<close> created by \<^verbatim>\<open>prepare_format\<close>.  The statement declares no key and no
  \<^verbatim>\<open>UNIQUE\<close> column, so the table is a list of rows, in insertion (rowid) order.
\<close>

record 'n row =
  queue_name :: string
  row_uuid :: string
  row_data :: string
  row_ttl :: 'n
  row_flags :: int

text \<open>
  The storage object: \<open>items_table\<close> is the table as the connection sees it, \<open>conn_open\<close>
  tells whether \<^verbatim>\<open>close()\<close> has not been called yet.  \<open>faults\<close> stands for the medium, which
  the module does not control: \<open>None\<close> is a medium that never fails, \<open>Some k\<close> one that
  completes \<open>k\<close> more writing statements (\<^verbatim>\<open>execute\<close> of an \<^verbatim>\<open>INSERT\<close>, \<^verbatim>\<open>UPDATE\<close>,
  \<^verbatim>\<open>DELETE\<close>, or \<^verbatim>\<open>commit\<close>) and then raises on every statement.
\<close>

record 'n SqliteQueuesStorage =
  items_table :: "'n row list"
  conn_open :: bool
  faults :: "nat option"

text \<open>Whether a \<^verbatim>\<open>SELECT\<close> raises, and what.\<close>

definition stmt_error :: "'n SqliteQueuesStorage \<Rightarrow> error option" where
  "stmt_error s =
     (if \<not> conn_open s then Some ProgrammingError
      else if faults s = Some 0 then Some OperationalError
      else None)"

text \<open>
  \<^verbatim>\<open>self.crs.execute(sql, parameters)\<close> of a writing statement.  The argument is the
  statement with its parameters bound, as the change \<open>f\<close> it makes to the table, or the
  exception the binding raises.  A closed connection is refused first, the parameters are
  bound next, the statement runs last.
\<close>

definition execute :: "error + ('n row list \<Rightarrow> 'n row list) \<Rightarrow> 'n SqliteQueuesStorage
    \<Rightarrow> error option \<times> 'n SqliteQueuesStorage" where
  "execute stmt s =
     (if \<not> conn_open s then (Some ProgrammingError, s)
      else case stmt of
        Inl e \<Rightarrow> (Some e, s)
      | Inr f \<Rightarrow>
          (if faults s = Some 0 then (Some OperationalError, s)
           else (None, s\<lparr>items_table := f (items_table s),
                         faults := map_option (\<lambda>k. k - 1) (faults s)\<rparr>)))"

text \<open>\<^verbatim>\<open>self.conn.commit()\<close>.\<close>

definition commit :: "'n SqliteQueuesStorage \<Rightarrow> error option \<times> 'n SqliteQueuesStorage" where
  "commit s = execute (Inr (\<lambda>rs. rs)) s"

text \<open>
  \<^verbatim>\<open>SqliteQueuesStorage(filename)\<close>: the file either has no table \<^verbatim>\<open>items\<close> yet (\<open>None\<close>;
  \<^verbatim>\<open>test_format\<close> then calls \<^verbatim>\<open>prepare_format\<close>, which creates it empty) or holds the
  committed rows.  \<^verbatim>\<open>sweep\<close> (\<^verbatim>\<open>VACUUM\<close>) keeps the rows and their order.
\<close>

definition prepare_format :: "'n row list" where
  "prepare_format = []"

definition test_format :: "'n row list option \<Rightarrow> 'n row list" where
  "test_format file = (case file of None \<Rightarrow> prepare_format | Some rs \<Rightarrow> rs)"

definition sweep :: "'n row list \<Rightarrow> 'n row list" where
  "sweep rs = rs"

definition storage_init :: "'n row list option \<Rightarrow> 'n SqliteQueuesStorage" where
  "storage_init file =
     \<lparr>items_table = sweep (test_format file), conn_open = True, faults = None\<rparr>"

text \<open>
  \<^verbatim>\<open>SqliteQueuesStorage.close\<close>: \<^verbatim>\<open>self.crs.close()\<close>, then \<^verbatim>\<open>self.conn.close()\<close>.  On a
  connection that is closed already the first of the two raises.
\<close>

definition storage_close :: "'n SqliteQueuesStorage
    \<Rightarrow> error option \<times> 'n SqliteQueuesStorage" where
  "storage_close s =
     (if \<not> conn_open s then (Some ProgrammingError, s)
      else (None, s\<lparr>conn_open := False\<rparr>))"

text \<open>
  \<^verbatim>\<open>get_queues\<close>: \<^verbatim>\<open>SELECT queue_name FROM items GROUP BY queue_name\<close>, each name once, in
  the order of the grouping (bytewise).
\<close>

definition get_queues :: "'n SqliteQueuesStorage \<Rightarrow> error + string list" where
  "get_queues s =
     (case stmt_error s of
        Some e \<Rightarrow> Inl e
      | None \<Rightarrow> Inr (sort (remdups (map queue_name (items_table s)))))"

text \<open>The \<open>Item\<close> built from a fetched row: \<^verbatim>\<open>Item(res[0], res[1], res[2], res[3])\<close>.\<close>

definition item_of_row :: "'n row \<Rightarrow> 'n Item" where
  "item_of_row r = \<lparr>uuid = row_uuid r, data = row_data r, ttl = row_ttl r, flags = row_flags r\<rparr>"

text \<open>The loop of \<^verbatim>\<open>get_items\<close>: one new object per fetched row, appended in order.\<close>

fun get_items_loop :: "'n row list \<Rightarrow> ref list \<Rightarrow> 'n heap \<Rightarrow> ref list \<times> 'n heap" where
  "get_items_loop [] items h = (items, h)"
| "get_items_loop (res # rest) items h =
     (case new_Item (item_of_row res) h of
        (r, h') \<Rightarrow> get_items_loop rest (items @ [r]) h')"

definition get_items :: "string \<Rightarrow> 'n SqliteQueuesStorage \<Rightarrow> 'n heap
    \<Rightarrow> error + (ref list \<times> 'n heap)" where
  "get_items qname s h =
     (case stmt_error s of
        Some e \<Rightarrow> Inl e
      | None \<Rightarrow> Inr (get_items_loop (filter (\<lambda>r. queue_name r = qname) (items_table s)) [] h))"

text \<open>An integer that SQLite can hold.\<close>

definition fits_int64 :: "int \<Rightarrow> bool" where
  "fits_int64 i \<longleftrightarrow> - (2 ^ 63) \<le> i \<and> i < 2 ^ 63"

text \<open>
  The row written by \<^verbatim>\<open>INSERT INTO items ... VALUES (?, ?, ?, ?, ?)\<close> for an item whose ttl
  the \<^verbatim>\<open>REAL\<close> column holds as \<open>t\<close>.
\<close>

definition row_of_item :: "string \<Rightarrow> 'n Item \<Rightarrow> 'n \<Rightarrow> 'n row" where
  "row_of_item qname it t =
     \<lparr>queue_name = qname, row_uuid = uuid it, row_data = data it,
      row_ttl = t, row_flags = flags it\<rparr>"

text \<open>
  Binding the parameters of the \<^verbatim>\<open>INSERT\<close>, in their order: the ttl, then the flags.
\<close>

definition bind_insert :: "'n python \<Rightarrow> string \<Rightarrow> 'n Item
    \<Rightarrow> error + ('n row list \<Rightarrow> 'n row list)" where
  "bind_insert py qname it =
     (case py_real_column py (ttl it) of
        Inl e \<Rightarrow> Inl e
      | Inr t \<Rightarrow>
          (if fits_int64 (flags it) then Inr (\<lambda>rs. rs @ [row_of_item qname it t])
           else Inl OverflowError))"

text \<open>\<^verbatim>\<open>SqliteQueuesStorage.push\<close>: one \<^verbatim>\<open>INSERT\<close>, then \<^verbatim>\<open>commit\<close>.\<close>

definition storage_push :: "'n python \<Rightarrow> string \<Rightarrow> 'n Item \<Rightarrow> 'n SqliteQueuesStorage
    \<Rightarrow> error option \<times> 'n SqliteQueuesStorage" where
  "storage_push py qname it s =
     (case execute (bind_insert py qname it) s of
        (Some e, s') \<Rightarrow> (Some e, s')
      | (None, s') \<Rightarrow> commit s')"

text \<open>Reading \<^verbatim>\<open>item.uuid\<close>: a string has no such attribute.\<close>

fun attr_uuid :: "'n heap \<Rightarrow> pyobj \<Rightarrow> error + string" where
  "attr_uuid h (Obj r) = Inr (uuid (cells h r))"
| "attr_uuid h (Str s) = Inl AttributeError"

text \<open>\<^verbatim>\<open>DELETE FROM items WHERE uuid = ?\<close>.\<close>

definition sql_delete :: "string \<Rightarrow> 'n row list \<Rightarrow> 'n row list" where
  "sql_delete u rs = filter (\<lambda>r. row_uuid r \<noteq> u) rs"

text \<open>\<^verbatim>\<open>UPDATE items SET ttl = ? WHERE uuid = ?\<close>.\<close>

definition sql_update_ttl :: "'n \<Rightarrow> string \<Rightarrow> 'n row list \<Rightarrow> 'n row list" where
  "sql_update_ttl t u rs = map (\<lambda>r. if row_uuid r = u then r\<lparr>row_ttl := t\<rparr> else r) rs"

text \<open>
  \<^verbatim>\<open>delete_items\<close>: for each element, read its \<^verbatim>\<open>.uuid\<close> and execute the \<^verbatim>\<open>DELETE\<close>; then
  \<^verbatim>\<open>commit\<close>.  An exception leaves the loop with the statements executed so far.
\<close>

fun delete_items_loop :: "'n heap \<Rightarrow> pyobj list \<Rightarrow> 'n SqliteQueuesStorage
    \<Rightarrow> error option \<times> 'n SqliteQueuesStorage" where
  "delete_items_loop h [] s = (None, s)"
| "delete_items_loop h (item # items) s =
     (case attr_uuid h item of
        Inl e \<Rightarrow> (Some e, s)
      | Inr u \<Rightarrow>
          (case execute (Inr (sql_delete u)) s of
             (Some e, s') \<Rightarrow> (Some e, s')
           | (None, s') \<Rightarrow> delete_items_loop h items s'))"

definition delete_items :: "'n heap \<Rightarrow> pyobj list \<Rightarrow> 'n SqliteQueuesStorage
    \<Rightarrow> error option \<times> 'n SqliteQueuesStorage" where
  "delete_items h items s =
     (case delete_items_loop h items s of
        (Some e, s') \<Rightarrow> (Some e, s')
      | (None, s') \<Rightarrow> commit s')"

text \<open>Binding the parameters of the \<^verbatim>\<open>UPDATE\<close>: \<^verbatim>\<open>item.ttl\<close> goes to the \<^verbatim>\<open>REAL\<close> column.\<close>

definition bind_update :: "'n python \<Rightarrow> 'n Item \<Rightarrow> error + ('n row list \<Rightarrow> 'n row list)" where
  "bind_update py it =
     (case py_real_column py (ttl it) of
        Inl e \<Rightarrow> Inl e
      | Inr t \<Rightarrow> Inr (sql_update_ttl t (uuid it)))"

text \<open>
  \<^verbatim>\<open>update_items_ttl\<close>: its only caller passes \<open>Item\<close> objects; \<^verbatim>\<open>item.ttl\<close> and
  \<^verbatim>\<open>item.uuid\<close> are read from the heap when the statement is executed.
\<close>

fun update_items_ttl_loop :: "'n python \<Rightarrow> 'n heap \<Rightarrow> ref list \<Rightarrow> 'n SqliteQueuesStorage
    \<Rightarrow> error option \<times> 'n SqliteQueuesStorage" where
  "update_items_ttl_loop py h [] s = (None, s)"
| "update_items_ttl_loop py h (item # items) s =
     (case execute (bind_update py (cells h item)) s of
        (Some e, s') \<Rightarrow> (Some e, s')
      | (None, s') \<Rightarrow> update_items_ttl_loop py h items s')"

definition update_items_ttl :: "'n python \<Rightarrow> 'n heap \<Rightarrow> ref list \<Rightarrow> 'n SqliteQueuesStorage
    \<Rightarrow> error option \<times> 'n SqliteQueuesStorage" where
  "update_items_ttl py h items s =
     (case update_items_ttl_loop py h items s of
        (Some e, s') \<Rightarrow> (Some e, s')
      | (None, s') \<Rightarrow> commit s')"

section \<open>\<^verbatim>\<open>Queue\<close>\<close>

text \<open>
  The attributes of a \<open>Queue\<close> object: \<open>queue\<close> is the list of the \<open>Item\<close> objects it
  holds, \<open>last_disconnect_absolute\<close> is \<^verbatim>\<open>None\<close> until the first \<^verbatim>\<open>disconnect()\<close>.  The
  attribute \<^verbatim>\<open>manager\<close> is used only as \<^verbatim>\<open>self.manager.storage\<close>; every method below takes
  the current value of that expression as its argument \<open>ms\<close> (\<open>None\<close> once the manager is
  closed) and returns it updated.  A method returns the exception it raised, if any,
  together with the state it leaves behind.
\<close>

record 'n Queue =
  name :: string
  queue :: "ref list"
  last_disconnect_absolute :: "'n option"

text \<open>\<^verbatim>\<open>Queue.disconnect\<close>, with \<open>now\<close> the reading of \<^verbatim>\<open>time.time()\<close>.\<close>

definition disconnect :: "'n \<Rightarrow> 'n Queue \<Rightarrow> 'n Queue" where
  "disconnect now q = q\<lparr>last_disconnect_absolute := Some now\<rparr>"

text \<open>\<^verbatim>\<open>Queue.load_persistent_data\<close>.\<close>

definition load_persistent_data :: "'n SqliteQueuesStorage option \<Rightarrow> 'n heap \<Rightarrow> 'n Queue
    \<Rightarrow> error option \<times> 'n heap \<times> 'n Queue" where
  "load_persistent_data ms h q =
     (case ms of
        None \<Rightarrow> (Some AttributeError, h, q)
      | Some s \<Rightarrow>
          (case get_items (name q) s h of
             Inl e \<Rightarrow> (Some e, h, q)
           | Inr (items, h') \<Rightarrow> (None, h', q\<lparr>queue := items\<rparr>)))"

text \<open>
  \<^verbatim>\<open>Queue(name, manager)\<close>: the constructor; an exception in it leaves no queue.
\<close>

definition Queue_init :: "'n \<Rightarrow> string \<Rightarrow> 'n SqliteQueuesStorage option \<Rightarrow> 'n heap
    \<Rightarrow> 'n heap \<times> (error + 'n Queue)" where
  "Queue_init now qname ms h =
     (case load_persistent_data ms h \<lparr>name = qname, queue = [], last_disconnect_absolute = None\<rparr> of
        (Some e, h', q) \<Rightarrow> (h', Inl e)
      | (None, h', q) \<Rightarrow> (h', Inr (disconnect now q)))"

text \<open>
  The loop of \<^verbatim>\<open>Queue.connect\<close>: \<^verbatim>\<open>item.ttl -= diff\<close> is an assignment to the object, then
  \<^verbatim>\<open>item.ttl >= 0\<close> sends the object to \<^verbatim>\<open>fresh_queue\<close> and \<^verbatim>\<open>storage_update_ttls\<close> or to
  \<^verbatim>\<open>storage_to_delete\<close>.  An exception of the subtraction or of the comparison leaves the
  loop with the objects changed so far.
\<close>

fun connect_loop :: "'n python \<Rightarrow> 'n \<Rightarrow> ref list \<Rightarrow> 'n heap \<Rightarrow> ref list \<Rightarrow> ref list
    \<Rightarrow> ref list \<Rightarrow> error option \<times> 'n heap \<times> ref list \<times> ref list \<times> ref list" where
  "connect_loop py diff [] h fresh_queue storage_update_ttls storage_to_delete =
     (None, h, fresh_queue, storage_update_ttls, storage_to_delete)"
| "connect_loop py diff (item # items) h fresh_queue storage_update_ttls storage_to_delete =
     (case py_sub py (ttl (cells h item)) diff of
        Inl e \<Rightarrow> (Some e, h, fresh_queue, storage_update_ttls, storage_to_delete)
      | Inr t \<Rightarrow>
          (let h' = h\<lparr>cells := (cells h)(item := (cells h item)\<lparr>ttl := t\<rparr>)\<rparr>
           in case py_ge0 py (ttl (cells h' item)) of
                Inl e \<Rightarrow> (Some e, h', fresh_queue, storage_update_ttls, storage_to_delete)
              | Inr b \<Rightarrow>
                  (if b then
                     connect_loop py diff items h' (fresh_queue @ [item])
                       (if persistent (cells h' item) then storage_update_ttls @ [item]
                        else storage_update_ttls)
                       storage_to_delete
                   else
                     connect_loop py diff items h' fresh_queue storage_update_ttls
                       (if persistent (cells h' item) then storage_to_delete @ [item]
                        else storage_to_delete))))"

text \<open>
  \<^verbatim>\<open>Queue.connect\<close>, with \<open>now\<close> the reading of \<^verbatim>\<open>time.time()\<close>.  The list
  \<^verbatim>\<open>self.queue\<close> is assigned only after both storage calls have returned.
\<close>

definition connect :: "'n python \<Rightarrow> 'n \<Rightarrow> 'n SqliteQueuesStorage option \<Rightarrow> 'n heap \<Rightarrow> 'n Queue
    \<Rightarrow> error option \<times> 'n SqliteQueuesStorage option \<times> 'n heap \<times> 'n Queue" where
  "connect py now ms h q =
     (case last_disconnect_absolute q of
        None \<Rightarrow> (Some TypeError, ms, h, q)
      | Some t0 \<Rightarrow>
          (case py_sub py now t0 of
             Inl e \<Rightarrow> (Some e, ms, h, q)
           | Inr diff \<Rightarrow>
               (case connect_loop py diff (queue q) h [] [] [] of
                  (Some e, h', fresh_queue, storage_update_ttls, storage_to_delete) \<Rightarrow>
                    (Some e, ms, h', q)
                | (None, h', fresh_queue, storage_update_ttls, storage_to_delete) \<Rightarrow>
                    (case ms of
                       None \<Rightarrow> (Some AttributeError, None, h', q)
                     | Some s \<Rightarrow>
                         (case update_items_ttl py h' storage_update_ttls s of
                            (Some e, s') \<Rightarrow> (Some e, Some s', h', q)
                          | (None, s') \<Rightarrow>
                              (case delete_items h' (map Obj storage_to_delete) s' of
                                 (Some e, s'') \<Rightarrow> (Some e, Some s'', h', q)
                               | (None, s'') \<Rightarrow>
                                   (None, Some s'', h', q\<lparr>queue := fresh_queue\<rparr>)))))))"

text \<open>\<^verbatim>\<open>Queue.push\<close>: the append comes first, the storage call second.\<close>

definition push :: "'n python \<Rightarrow> 'n SqliteQueuesStorage option \<Rightarrow> 'n heap \<Rightarrow> 'n Queue \<Rightarrow> ref
    \<Rightarrow> error option \<times> 'n SqliteQueuesStorage option \<times> 'n Queue" where
  "push py ms h q item =
     (let q' = q\<lparr>queue := queue q @ [item]\<rparr>
      in if persistent (cells h item) then
           (case ms of
              None \<Rightarrow> (Some AttributeError, None, q')
            | Some s \<Rightarrow>
                (case storage_push py (name q) (cells h item) s of
                   (e, s') \<Rightarrow> (e, Some s', q')))
         else (None, ms, q'))"

text \<open>\<^verbatim>\<open>Queue.get\<close>: the first object, or \<^verbatim>\<open>None\<close>.\<close>

definition get :: "'n Queue \<Rightarrow> ref option" where
  "get q = (case queue q of [] \<Rightarrow> None | item # _ \<Rightarrow> Some item)"

text \<open>
  \<^verbatim>\<open>Queue.pop\<close>: \<^verbatim>\<open>self.queue.pop(0)\<close> comes first; for a persistent item the storage is
  then called with the list \<^verbatim>\<open>[item.uuid]\<close>, a list of one string.
\<close>

definition pop :: "'n SqliteQueuesStorage option \<Rightarrow> 'n heap \<Rightarrow> 'n Queue
    \<Rightarrow> error option \<times> 'n SqliteQueuesStorage option \<times> 'n Queue" where
  "pop ms h q =
     (case queue q of
        [] \<Rightarrow> (None, ms, q)
      | item # rest \<Rightarrow>
          (let q' = q\<lparr>queue := rest\<rparr>
           in if persistent (cells h item) then
                (case ms of
                   None \<Rightarrow> (Some AttributeError, None, q')
                 | Some s \<Rightarrow>
                     (case delete_items h [Str (uuid (cells h item))] s of
                        (e, s') \<Rightarrow> (e, Some s', q')))
              else (None, ms, q')))"

text \<open>\<^verbatim>\<open>Queue.__len__\<close>.\<close>

definition len :: "'n Queue \<Rightarrow> nat" where
  "len q = length (queue q)"

section \<open>\<^verbatim>\<open>QueuesManager\<close>\<close>

text \<open>
  The attributes of the manager: \<open>storage\<close> is the storage object, or \<^verbatim>\<open>None\<close> after
  \<^verbatim>\<open>close()\<close>; \<open>queues\<close> is the dictionary from names to \<open>Queue\<close> objects, kept as the list
  of its pairs in insertion order, which is the order of iteration (a dictionary holds
  each key once).
\<close>

record 'n QueuesManager =
  storage :: "'n SqliteQueuesStorage option"
  queues :: "(string \<times> 'n Queue) list"

text \<open>
  \<^verbatim>\<open>QueuesManager.get_queue\<close>, with \<open>now\<close> the reading of \<^verbatim>\<open>time.time()\<close> in the
  constructor of a new queue.  When the constructor raises, the assignment to
  \<^verbatim>\<open>self.queues[queue_name]\<close> is not reached.
\<close>

definition get_queue :: "'n \<Rightarrow> string \<Rightarrow> 'n QueuesManager \<Rightarrow> 'n heap
    \<Rightarrow> 'n heap \<times> 'n QueuesManager \<times> (error + 'n Queue)" where
  "get_queue now qname m h =
     (case map_of (queues m) qname of
        Some q \<Rightarrow> (h, m, Inr q)
      | None \<Rightarrow>
          (case Queue_init now qname (storage m) h of
             (h', Inl e) \<Rightarrow> (h', m, Inl e)
           | (h', Inr q) \<Rightarrow> (h', m\<lparr>queues := queues m @ [(qname, q)]\<rparr>, Inr q)))"

text \<open>
  \<^verbatim>\<open>QueuesManager.load_from_storage\<close>; \<open>clock n\<close> is the reading of \<^verbatim>\<open>time.time()\<close> when the
  queue named \<open>n\<close> is constructed.
\<close>

fun load_loop :: "(string \<Rightarrow> 'n) \<Rightarrow> string list \<Rightarrow> 'n QueuesManager \<Rightarrow> 'n heap
    \<Rightarrow> 'n heap \<times> 'n QueuesManager \<times> error option" where
  "load_loop clock [] m h = (h, m, None)"
| "load_loop clock (qname # rest) m h =
     (case get_queue (clock qname) qname m h of
        (h', m', Inl e) \<Rightarrow> (h', m', Some e)
      | (h', m', Inr q) \<Rightarrow> load_loop clock rest m' h')"

definition load_from_storage :: "(string \<Rightarrow> 'n) \<Rightarrow> 'n QueuesManager \<Rightarrow> 'n heap
    \<Rightarrow> 'n heap \<times> 'n QueuesManager \<times> error option" where
  "load_from_storage clock m h =
     (case storage m of
        None \<Rightarrow> (h, m, Some AttributeError)
      | Some s \<Rightarrow>
          (case get_queues s of
             Inl e \<Rightarrow> (h, m, Some e)
           | Inr names \<Rightarrow> load_loop clock names m h))"

text \<open>\<^verbatim>\<open>QueuesManager(storage)\<close>: an exception in the constructor leaves no manager.\<close>

definition QueuesManager_init :: "(string \<Rightarrow> 'n) \<Rightarrow> 'n SqliteQueuesStorage \<Rightarrow> 'n heap
    \<Rightarrow> 'n heap \<times> (error + 'n QueuesManager)" where
  "QueuesManager_init clock s h =
     (case load_from_storage clock \<lparr>storage = Some s, queues = []\<rparr> h of
        (h', m, Some e) \<Rightarrow> (h', Inl e)
      | (h', m, None) \<Rightarrow> (h', Inr m))"

text \<open>\<^verbatim>\<open>del self.queues[queue_name]\<close>.\<close>

definition dict_del :: "string \<Rightarrow> (string \<times> 'n Queue) list \<Rightarrow> (string \<times> 'n Queue) list" where
  "dict_del k d = filter (\<lambda>(k', v). k' \<noteq> k) d"

text \<open>
  \<^verbatim>\<open>QueuesManager.cleanup\<close>.  The loop runs over \<^verbatim>\<open>self.queues.items()\<close>, a view of the
  dictionary, and deletes from the dictionary inside the loop.  The iterator checks the
  size of the dictionary at every step, so the step after the first \<^verbatim>\<open>del\<close> raises, also
  when no entry is left to visit.  Up to the first \<^verbatim>\<open>del\<close> the dictionary is the one the
  loop started with.  \<^verbatim>\<open>not queue\<close> is \<^verbatim>\<open>len(queue) == 0\<close>.
\<close>

fun cleanup_loop :: "(string \<times> 'n Queue) list \<Rightarrow> 'n QueuesManager
    \<Rightarrow> error option \<times> 'n QueuesManager" where
  "cleanup_loop [] m = (None, m)"
| "cleanup_loop ((qname, q) # rest) m =
     (if len q = 0 then (Some RuntimeError, m\<lparr>queues := dict_del qname (queues m)\<rparr>)
      else cleanup_loop rest m)"

definition cleanup :: "'n QueuesManager \<Rightarrow> error option \<times> 'n QueuesManager" where
  "cleanup m = cleanup_loop (queues m) m"

text \<open>
  \<^verbatim>\<open>QueuesManager.close\<close>: \<^verbatim>\<open>self.queues.clear()\<close>, then \<^verbatim>\<open>self.storage.close()\<close>, then
  \<^verbatim>\<open>self.storage = None\<close>, which is not reached when the second raises.  The third
  component is the storage object after the call, for whoever still holds it.
\<close>

definition close :: "'n QueuesManager
    \<Rightarrow> error option \<times> 'n QueuesManager \<times> 'n SqliteQueuesStorage option" where
  "close m =
     (case storage m of
        None \<Rightarrow> (Some AttributeError, m\<lparr>queues := []\<rparr>, None)
      | Some s \<Rightarrow>
          (case storage_close s of
             (Some e, s') \<Rightarrow> (Some e, m\<lparr>queues := [], storage := Some s'\<rparr>, Some s')
           | (None, s') \<Rightarrow> (None, m\<lparr>queues := [], storage := None\<rparr>, Some s')))"

section \<open>Notions used to state the properties\<close>

text \<open>
  A storage that is open on a medium without faults: every statement whose parameters
  bind completes.
\<close>

definition healthy :: "'n SqliteQueuesStorage \<Rightarrow> bool" where
  "healthy s \<longleftrightarrow> conn_open s \<and> faults s = None"

text \<open>
  The item after \<^verbatim>\<open>item.ttl -= diff\<close> (unchanged when the subtraction raises); whether
  \<^verbatim>\<open>item.ttl >= 0\<close> is true; whether neither \<^verbatim>\<open>item.ttl -= diff\<close> nor the comparison that
  follows it raises.
\<close>

definition aged :: "'n python \<Rightarrow> 'n \<Rightarrow> 'n Item \<Rightarrow> 'n Item" where
  "aged py diff it = (case py_sub py (ttl it) diff of Inl e \<Rightarrow> it | Inr t \<Rightarrow> it\<lparr>ttl := t\<rparr>)"







text \<open>
  A caller that pushes the objects of a list one after the other, and a caller that \<open>n\<close>
  times looks at the front with \<^verbatim>\<open>get()\<close> and then calls \<^verbatim>\<open>pop()\<close>, collecting what it saw.
  Both go on whatever the storage call inside \<^verbatim>\<open>push\<close> or \<^verbatim>\<open>pop\<close> raised.
\<close>

fun push_all :: "'n python \<Rightarrow> 'n SqliteQueuesStorage option \<Rightarrow> 'n heap \<Rightarrow> 'n Queue
    \<Rightarrow> ref list \<Rightarrow> 'n SqliteQueuesStorage option \<times> 'n Queue" where
  "push_all py ms h q [] = (ms, q)"
| "push_all py ms h q (item # items) =
     (case push py ms h q item of (e, ms', q') \<Rightarrow> push_all py ms' h q' items)"

fun pop_all :: "nat \<Rightarrow> 'n SqliteQueuesStorage option \<Rightarrow> 'n heap \<Rightarrow> 'n Queue
    \<Rightarrow> ref option list \<times> 'n SqliteQueuesStorage option \<times> 'n Queue" where
  "pop_all 0 ms h q = ([], ms, q)"
| "pop_all (Suc n) ms h q =
     (case pop ms h q of
        (e, ms', q') \<Rightarrow>
          (case pop_all n ms' h q' of (seen, rest) \<Rightarrow> (get q # seen, rest)))"

text \<open>
  What a manager holds after loading from the storage \<open>s\<close>: under each name a queue of
  that name, disconnected at the time of its construction, whose objects are the rows of
  that name, in the order of the table.
\<close>

definition loaded :: "(string \<Rightarrow> 'n) \<Rightarrow> 'n SqliteQueuesStorage \<Rightarrow> 'n heap \<Rightarrow> 'n QueuesManager
    \<Rightarrow> bool" where
  "loaded clock s h m \<longleftrightarrow>
     (\<forall>n q. map_of (queues m) n = Some q \<longrightarrow>
        name q = n \<and> last_disconnect_absolute q = Some (clock n)
        \<and> map (cells h) (queue q)
            = map item_of_row (filter (\<lambda>r. queue_name r = n) (items_table s))
        \<and> (\<forall>r \<in> set (queue q). r < used h))"

section \<open>Concrete states\<close>

text \<open>
  The numbers of the states below are floats on which Python's subtraction is exact
  (small whole numbers), so that on them \<^verbatim>\<open>a - b\<close> is the difference of the reals; no
  operation raises, and a float bound to a \<^verbatim>\<open>REAL\<close> column comes back as it is.
\<close>

definition exact_py :: "real python" where
  "exact_py = \<lparr>py_sub = (\<lambda>a b. Inr (a - b)), py_ge0 = (\<lambda>a. Inr (0 \<le> a)),
               py_real_column = (\<lambda>a. Inr a)\<rparr>"

text \<open>
  Three items in a queue \<^verbatim>\<open>"jobs"\<close> disconnected at time 100: \<open>a\<close> and \<open>c\<close> are persistent
  and have their rows in the storage, \<open>b\<close> is not persistent.
\<close>

definition item_a :: "real Item" where
  "item_a = \<lparr>uuid = ''a'', data = ''x'', ttl = 5, flags = 1\<rparr>"

definition item_b :: "real Item" where
  "item_b = \<lparr>uuid = ''b'', data = ''y'', ttl = 3, flags = 0\<rparr>"

definition item_c :: "real Item" where
  "item_c = \<lparr>uuid = ''c'', data = ''z'', ttl = 2, flags = 1\<rparr>"

definition heap_abc :: "real heap" where
  "heap_abc = \<lparr>cells = (\<lambda>r. item_a)(1 := item_b, 2 := item_c), used = 3\<rparr>"

definition jobs_abc :: "real Queue" where
  "jobs_abc = \<lparr>name = ''jobs'', queue = [0, 1, 2], last_disconnect_absolute = Some 100\<rparr>"

definition store_ac :: "real SqliteQueuesStorage" where
  "store_ac = \<lparr>items_table = [row_of_item ''jobs'' item_a 5, row_of_item ''jobs'' item_c 2],
                conn_open = True, faults = None\<rparr>"

text \<open>The same queue after the object \<open>a\<close> was pushed twice onto the empty queue.\<close>

definition jobs_aa :: "real Queue" where
  "jobs_aa = \<lparr>name = ''jobs'', queue = [0, 0], last_disconnect_absolute = Some 100\<rparr>"

definition store_aa :: "real SqliteQueuesStorage" where
  "store_aa = \<lparr>items_table = [row_of_item ''jobs'' item_a 5, row_of_item ''jobs'' item_a 5],
                conn_open = True, faults = None\<rparr>"

definition queue_A :: "real Queue" where
  "queue_A = \<lparr>name = ''A'', queue = [], last_disconnect_absolute = Some 100\<rparr>"

definition queue_B :: "real Queue" where
  "queue_B = \<lparr>name = ''B'', queue = [0, 1, 2], last_disconnect_absolute = Some 100\<rparr>"

definition queue_C :: "real Queue" where
  "queue_C = \<lparr>name = ''C'', queue = [], last_disconnect_absolute = Some 100\<rparr>"

definition manager_AB :: "real QueuesManager" where
  "manager_AB = \<lparr>storage = Some store_ac, queues = [(''A'', queue_A), (''B'', queue_B)]\<rparr>"

definition manager_ABC :: "real QueuesManager" where
  "manager_ABC =
     \<lparr>storage = Some store_ac,
      queues = [(''A'', queue_A), (''B'', queue_B), (''C'', queue_C)]\<rparr>"

definition manager_jobs :: "real QueuesManager" where
  "manager_jobs = \<lparr>storage = Some store_ac, queues = [(''jobs'', jobs_abc)]\<rparr>"

text \<open>
  A restart: the item \<open>a\<close> is pushed onto a new queue \<^verbatim>\<open>"jobs"\<close> (constructed, hence
  disconnected, at time 0) over a new store; the manager is closed; a new storage object
  is opened on the stored rows, in a process that has created no object yet, and a new
  manager is constructed at time 100.
\<close>

definition jobs_new :: "real Queue" where
  "jobs_new = \<lparr>name = ''jobs'', queue = [], last_disconnect_absolute = Some 0\<rparr>"

definition store_pushed :: "real SqliteQueuesStorage" where
  "store_pushed = (storage_init None)\<lparr>items_table := [row_of_item ''jobs'' item_a 5]\<rparr>"

definition heap_new :: "real heap" where
  "heap_new = \<lparr>cells = (\<lambda>r. item_b), used = 0\<rparr>"

definition store_restarted :: "real SqliteQueuesStorage" where
  "store_restarted = storage_init (Some (items_table (snd (storage_close store_pushed))))"

definition heap_restarted :: "real heap" where
  "heap_restarted = \<lparr>cells = (\<lambda>r. item_b)(0 := item_a), used = 1\<rparr>"

definition manager_restarted :: "real QueuesManager" where
  "manager_restarted =
     \<lparr>storage = Some store_restarted,
      queues = [(''jobs'', \<lparr>name = ''jobs'', queue = [0], last_disconnect_absolute = Some 100\<rparr>)]\<rparr>"

lemmas example_defs = exact_py_def item_a_def item_b_def item_c_def heap_abc_def jobs_abc_def
  jobs_aa_def store_ac_def store_aa_def queue_A_def queue_B_def queue_C_def manager_AB_def manager_ABC_def
  manager_jobs_def

lemmas restart_defs = jobs_new_def store_pushed_def heap_new_def store_restarted_def
  heap_restarted_def manager_restarted_def

lemmas load_defs = QueuesManager_init_def load_from_storage_def get_queues_def get_queue_def
  Queue_init_def load_persistent_data_def get_items_def new_Item_def item_of_row_def
  disconnect_def storage_init_def storage_close_def test_format_def sweep_def stmt_error_def


lemmas run_defs = connect_def update_items_ttl_def delete_items_def bind_update_def execute_def
  commit_def sql_update_ttl_def sql_delete_def persistent_def FLAG_PERSISTENT_def
  row_of_item_def

section \<open>The storage on a medium without faults\<close>

lemma execute_healthy:
  "healthy s \<Longrightarrow> execute (Inr f) s = (None, s\<lparr>items_table := f (items_table s)\<rparr>)"
  by (simp add: execute_def healthy_def)

lemma execute_unbound:
  "conn_open s \<Longrightarrow> execute (Inl e) s = (Some e, s)"
  by (simp add: execute_def)

lemma healthy_table_update [simp]: "healthy (s\<lparr>items_table := t\<rparr>) = healthy s"
  by (simp add: healthy_def)

lemma commit_healthy: "healthy s \<Longrightarrow> commit s = (None, s)"
  by (simp add: commit_def execute_healthy)

lemma storage_push_healthy:
  "healthy s \<Longrightarrow> py_real_column py (ttl it) = Inr t \<Longrightarrow> fits_int64 (flags it) \<Longrightarrow>
   storage_push py qname it s
     = (None, s\<lparr>items_table := items_table s @ [row_of_item qname it t]\<rparr>)"
  by (simp add: storage_push_def bind_insert_def execute_healthy commit_healthy)

lemma storage_push_unbound:
  "conn_open s \<Longrightarrow> bind_insert py qname it = Inl e \<Longrightarrow>
   storage_push py qname it s = (Some e, s)"
  by (simp add: storage_push_def execute_unbound)







section \<open>What the storage calls do to the uuids, whatever the medium does\<close>

lemma execute_update_uuids:
  "map row_uuid (items_table (snd (execute (bind_update py it) s))) = map row_uuid (items_table s)"
  by (simp add: execute_def bind_update_def sql_update_ttl_def comp_def split: sum.splits)

lemma commit_table: "items_table (snd (commit s)) = items_table s"
  by (simp add: commit_def execute_def)

lemma update_items_ttl_loop_uuids:
  "map row_uuid (items_table (snd (update_items_ttl_loop py h items s)))
     = map row_uuid (items_table s)"
proof (induction items arbitrary: s)
  case Nil
  show ?case by simp
next
  case (Cons item items)
  obtain e s' where ex: "execute (bind_update py (cells h item)) s = (e, s')"
    by (cases "execute (bind_update py (cells h item)) s") auto
  have u: "map row_uuid (items_table s') = map row_uuid (items_table s)"
    using execute_update_uuids [of py "cells h item" s] by (simp add: ex)
  show ?case
    by (cases e) (simp_all add: ex u Cons.IH)
qed

lemma update_items_ttl_uuids:
  "map row_uuid (items_table (snd (update_items_ttl py h items s)))
     = map row_uuid (items_table s)"
proof -
  obtain e s' where l: "update_items_ttl_loop py h items s = (e, s')"
    by (cases "update_items_ttl_loop py h items s") auto
  have u: "map row_uuid (items_table s') = map row_uuid (items_table s)"
    using update_items_ttl_loop_uuids [of py h items s] by (simp add: l)
  show ?thesis
    by (cases e) (simp_all add: update_items_ttl_def l u commit_table)
qed

lemma execute_delete_distinct:
  "distinct (map row_uuid (items_table s)) \<Longrightarrow>
   distinct (map row_uuid (items_table (snd (execute (Inr (sql_delete u)) s))))"
  by (simp add: execute_def sql_delete_def distinct_map_filter)

lemma delete_items_loop_distinct:
  "distinct (map row_uuid (items_table s)) \<Longrightarrow>
   distinct (map row_uuid (items_table (snd (delete_items_loop h items s))))"
proof (induction items arbitrary: s)
  case Nil
  then show ?case by simp
next
  case (Cons item items)
  show ?case
  proof (cases "attr_uuid h item")
    case (Inl e)
    then show ?thesis using Cons.prems by simp
  next
    case (Inr u)
    obtain e s' where ex: "execute (Inr (sql_delete u)) s = (e, s')"
      by (cases "execute (Inr (sql_delete u)) s") auto
    have d: "distinct (map row_uuid (items_table s'))"
      using execute_delete_distinct [OF Cons.prems, of u] by (simp add: ex)
    show ?thesis
      by (cases e) (simp_all add: Inr ex d Cons.IH)
  qed
qed

lemma delete_items_distinct:
  "distinct (map row_uuid (items_table s)) \<Longrightarrow>
   distinct (map row_uuid (items_table (snd (delete_items h items s))))"
proof -
  assume a: "distinct (map row_uuid (items_table s))"
  obtain e s' where l: "delete_items_loop h items s = (e, s')"
    by (cases "delete_items_loop h items s") auto
  have d: "distinct (map row_uuid (items_table s'))"
    using delete_items_loop_distinct [OF a, of h items] by (simp add: l)
  show ?thesis
    by (cases e) (simp_all add: delete_items_def l d commit_table)
qed

section \<open>\<^verbatim>\<open>Queue.connect\<close>\<close>

lemma persistent_ttl_update [simp]: "persistent (it\<lparr>ttl := t\<rparr>) = persistent it"
  by (simp add: persistent_def)

lemma persistent_aged [simp]: "persistent (aged py diff it) = persistent it"
  by (simp add: aged_def split: sum.splits)





text \<open>
  The loop on any list, when it completes: every object has been aged once for each place
  it holds in the list.
\<close>

lemma connect_loop_count:
  "connect_loop py d rs h f u x = (None, h', f', u', x') \<Longrightarrow>
   cells h' r = (aged py d ^^ count_list rs r) (cells h r)"
proof (induction rs arbitrary: h f u x)
  case Nil
  then show ?case by simp
next
  case (Cons r0 rs)
  from Cons.prems obtain t where t: "py_sub py (ttl (cells h r0)) d = Inr t"
    by (cases "py_sub py (ttl (cells h r0)) d") auto
  let ?h1 = "h\<lparr>cells := (cells h)(r0 := (cells h r0)\<lparr>ttl := t\<rparr>)\<rparr>"
  have ag: "(cells h r0)\<lparr>ttl := t\<rparr> = aged py d (cells h r0)"
    by (simp add: aged_def t)
  from Cons.prems obtain b where b: "py_ge0 py t = Inr b"
    by (cases "py_ge0 py t") (auto simp: t Let_def)
  from Cons.prems obtain f1 u1 x1
    where rest: "connect_loop py d rs ?h1 f1 u1 x1 = (None, h', f', u', x')"
    by (cases b) (auto simp: t b Let_def split: if_splits)
  have "cells h' r = (aged py d ^^ count_list rs r) (cells ?h1 r)"
    using rest by (rule Cons.IH)
  then show ?case
    by (cases "r = r0") (simp_all add: ag funpow_swap1)
qed

lemma connect_heap:
  "last_disconnect_absolute q = Some t0 \<Longrightarrow> py_sub py now t0 = Inr diff \<Longrightarrow>
   fst (snd (snd (connect py now ms h q)))
     = fst (snd (connect_loop py diff (queue q) h [] [] []))"
  by (simp add: connect_def split: prod.splits option.splits)

lemma connect_error_queue:
  "connect py now ms h q = (Some e, ms', h', q') \<Longrightarrow> q' = q"
  by (auto simp: connect_def split: prod.splits option.splits sum.splits)




text \<open>
  C3.  The claim says that after a failed \<^verbatim>\<open>connect()\<close> the ttl values are those from before
  the call.  On a closed storage the \<^verbatim>\<open>UPDATE\<close> batch raises, the list is left as it was, and
  the ttl of the first item, 5 before the call, is \<open>-5\<close> after it.
\<close>

theorem failed_connect_leaves_decremented_ttls:
  "fst (connect exact_py 110 (Some (snd (storage_close store_ac))) heap_abc jobs_abc)
     = Some ProgrammingError
   \<and> snd (snd (snd (connect exact_py 110 (Some (snd (storage_close store_ac))) heap_abc jobs_abc)))
       = jobs_abc
   \<and> ttl (cells heap_abc 0) = 5
   \<and> ttl (cells (fst (snd (snd
        (connect exact_py 110 (Some (snd (storage_close store_ac))) heap_abc jobs_abc)))) 0) = - 5"
  by (simp add: run_defs example_defs storage_close_def)

text \<open>
  C3, as the code has it.  When the loop of \<^verbatim>\<open>connect()\<close> has completed and the call then
  raises (in a storage call, or because the manager has no storage any more), the \<open>Queue\<close>
  object is unchanged: its list is not replaced and still holds every item, in order, the
  expired ones included.  The loop has run before the storage calls, so every object has
  had \<^verbatim>\<open>item.ttl -= diff\<close> applied to it once for each place it holds in the list, and no
  other object has changed.
\<close>

theorem connect_failure_keeps_list_but_not_ttls:
  assumes disc: "last_disconnect_absolute q = Some t0"
    and diff: "py_sub py now t0 = Inr diff"
    and loop: "fst (connect_loop py diff (queue q) h [] [] []) = None"
    and fails: "connect py now ms h q = (Some e, ms', h', q')"
  shows "q' = q \<and> (\<forall>r. cells h' r = (aged py diff ^^ count_list (queue q) r) (cells h r))"
proof
  show "q' = q" using fails by (rule connect_error_queue)
  obtain hl f u x where l: "connect_loop py diff (queue q) h [] [] [] = (None, hl, f, u, x)"
    using loop by (cases "connect_loop py diff (queue q) h [] [] []") auto
  have "h' = fst (snd (snd (connect py now ms h q)))" by (simp add: fails)
  also have "\<dots> = hl" using connect_heap [OF disc diff, of ms h] by (simp add: l)
  finally have "h' = hl" .
  then show "\<forall>r. cells h' r = (aged py diff ^^ count_list (queue q) r) (cells h r)"
    using connect_loop_count [OF l] by simp
qed

text \<open>
  A medium that completes two more statements: the \<^verbatim>\<open>UPDATE\<close> batch for \<open>a\<close> (one
  \<^verbatim>\<open>UPDATE\<close>, one \<^verbatim>\<open>commit\<close>) returns, the \<^verbatim>\<open>DELETE\<close> batch for \<open>c\<close> raises.
\<close>

theorem connect_failure_keeps_list_but_not_ttls_witness:
  "last_disconnect_absolute jobs_abc = Some 100 \<and> py_sub exact_py 103 100 = Inr 3
   \<and> fst (connect_loop exact_py 3 (queue jobs_abc) heap_abc [] [] []) = None
   \<and> connect exact_py 103 (Some (store_ac\<lparr>faults := Some 2\<rparr>)) heap_abc jobs_abc
       = (Some OperationalError,
          Some (store_ac\<lparr>items_table := [row_of_item ''jobs'' item_a 2,
                                            row_of_item ''jobs'' item_c 2],
                          faults := Some 0\<rparr>),
          fst (snd (snd (connect exact_py 103 (Some (store_ac\<lparr>faults := Some 2\<rparr>))
                          heap_abc jobs_abc))),
          jobs_abc)
   \<and> map (\<lambda>r. ttl (cells (fst (snd (snd
               (connect exact_py 103 (Some (store_ac\<lparr>faults := Some 2\<rparr>)) heap_abc jobs_abc))))
             r)) [0, 1, 2]
       = [2, 0, - 1]"
proof -
  have hyp: "last_disconnect_absolute jobs_abc = Some 100" "py_sub exact_py 103 100 = Inr 3"
    "fst (connect_loop exact_py 3 (queue jobs_abc) heap_abc [] [] []) = None"
    by (simp_all add: example_defs persistent_def FLAG_PERSISTENT_def)
  have run: "connect exact_py 103 (Some (store_ac\<lparr>faults := Some 2\<rparr>)) heap_abc jobs_abc
       = (Some OperationalError,
          Some (store_ac\<lparr>items_table := [row_of_item ''jobs'' item_a 2,
                                            row_of_item ''jobs'' item_c 2],
                          faults := Some 0\<rparr>),
          fst (snd (snd (connect exact_py 103 (Some (store_ac\<lparr>faults := Some 2\<rparr>))
                          heap_abc jobs_abc))),
          jobs_abc)"
    by (simp add: run_defs example_defs)
  have vals: "queue jobs_abc = [0, Suc 0, 2]" "ttl (cells heap_abc 0) = 5"
    "ttl (cells heap_abc (Suc 0)) = 3" "ttl (cells heap_abc 2) = 2"
    by (simp_all add: example_defs)
  show ?thesis
    using connect_failure_keeps_list_but_not_ttls [OF hyp run] hyp run
    by (simp add: vals aged_def exact_py_def)
qed

section \<open>\<^verbatim>\<open>Queue.disconnect\<close>\<close>




section \<open>What a reader sees\<close>

text \<open>
  C9.  The claim, and the docstring of \<^verbatim>\<open>Queue.get\<close> (\<^verbatim>\<open>Items are not outdated\<close>): a reader
  never gets an item whose ttl has dropped below zero.  The code when \<^verbatim>\<open>connect()\<close> raises
  after its loop (the manager is closed, or the medium fails in the first storage call):
  the list is left as it was and holds the items with their lowered ttl; the front item
  had a ttl of 5, ten seconds of disconnection bring it to \<open>-5\<close>, and \<^verbatim>\<open>get()\<close> returns it.
\<close>

theorem reader_sees_negative_ttl_after_failed_connect:
  "ttl (cells heap_abc 0) = 5
   \<and> fst (connect exact_py 110 None heap_abc jobs_abc) = Some AttributeError
   \<and> get (snd (snd (snd (connect exact_py 110 None heap_abc jobs_abc)))) = Some 0
   \<and> ttl (cells (fst (snd (snd (connect exact_py 110 None heap_abc jobs_abc)))) 0) = - 5
   \<and> fst (connect exact_py 110 (Some (store_ac\<lparr>faults := Some 0\<rparr>)) heap_abc jobs_abc)
       = Some OperationalError
   \<and> get (snd (snd (snd
        (connect exact_py 110 (Some (store_ac\<lparr>faults := Some 0\<rparr>)) heap_abc jobs_abc))))
       = Some 0
   \<and> ttl (cells (fst (snd (snd
        (connect exact_py 110 (Some (store_ac\<lparr>faults := Some 0\<rparr>)) heap_abc jobs_abc)))) 0)
       = - 5"
  by (simp add: run_defs example_defs get_def)

section \<open>\<^verbatim>\<open>Queue.push\<close>, \<^verbatim>\<open>Queue.get\<close>, \<^verbatim>\<open>Queue.pop\<close>\<close>

lemma push_queue: "queue (snd (snd (push py ms h q item))) = queue q @ [item]"
  by (simp add: push_def Let_def split: option.splits prod.splits)

lemma pop_queue: "queue (snd (snd (pop ms h q))) = tl (queue q)"
  by (simp add: pop_def Let_def split: option.splits prod.splits list.splits)

lemma pop_empty: "queue q = [] \<Longrightarrow> pop ms h q = (None, ms, q)"
  by (simp add: pop_def)

lemma pop_not_persistent:
  "queue q = item # rest \<Longrightarrow> \<not> persistent (cells h item) \<Longrightarrow>
   pop ms h q = (None, ms, q\<lparr>queue := rest\<rparr>)"
  by (simp add: pop_def)

text \<open>
  A persistent front item and a manager that has its storage: \<^verbatim>\<open>delete_items\<close> receives a
  list of one string, reads \<^verbatim>\<open>.uuid\<close> from the string and raises before any statement is
  executed.  The item has left the list, the storage is as it was.
\<close>

lemma pop_persistent_raises:
  "queue q = item # rest \<Longrightarrow> persistent (cells h item) \<Longrightarrow>
   pop (Some s) h q = (Some AttributeError, Some s, q\<lparr>queue := rest\<rparr>)"
  by (simp add: pop_def delete_items_def)

text \<open>
  C2.  The claim: \<^verbatim>\<open>pop()\<close> of a persistent front item deletes its row from the storage
  before it returns.  The code at the queue \<^verbatim>\<open>"jobs"\<close> whose front item \<open>a\<close> is persistent
  and stored: \<^verbatim>\<open>pop()\<close> removes \<open>a\<close> from the list and raises \<open>AttributeError\<close>; the storage
  is unchanged and still holds the row with uuid \<open>a\<close>.
\<close>

theorem pop_persistent_item_raises_and_keeps_row:
  "pop (Some store_ac) heap_abc jobs_abc
     = (Some AttributeError, Some store_ac, jobs_abc\<lparr>queue := [1, 2]\<rparr>)
   \<and> persistent (cells heap_abc 0)
   \<and> uuid (cells heap_abc 0) \<in> row_uuid ` set (items_table store_ac)"
  by (simp add: pop_def delete_items_def example_defs persistent_def FLAG_PERSISTENT_def
      row_of_item_def)

lemma push_all_queue: "queue (snd (push_all py ms h q items)) = queue q @ items"
proof (induction items arbitrary: ms q)
  case Nil
  show ?case by simp
next
  case (Cons item items)
  obtain e ms' q' where p: "push py ms h q item = (e, ms', q')"
    by (cases "push py ms h q item") auto
  have "queue q' = queue q @ [item]" using push_queue [of py ms h q item] by (simp add: p)
  then show ?case by (simp add: p Cons.IH)
qed

lemma pop_all_seen:
  "n \<le> length (queue q) \<Longrightarrow> fst (pop_all n ms h q) = map Some (take n (queue q))"
proof (induction n arbitrary: ms q)
  case 0
  show ?case by simp
next
  case (Suc n)
  obtain e ms' q' where p: "pop ms h q = (e, ms', q')"
    by (cases "pop ms h q") auto
  have t: "queue q' = tl (queue q)" using pop_queue [of ms h q] by (simp add: p)
  from Suc.prems obtain x xs where xs: "queue q = x # xs" by (cases "queue q") auto
  have "n \<le> length (queue q')" using Suc.prems by (simp add: t xs)
  from Suc.IH [OF this, of ms'] show ?case
    by (auto simp add: p t xs get_def split: prod.splits)
qed

lemma pop_all_queue: "queue (snd (snd (pop_all n ms h q))) = drop n (queue q)"
proof (induction n arbitrary: ms q)
  case 0
  show ?case by simp
next
  case (Suc n)
  obtain e ms' q' where p: "pop ms h q = (e, ms', q')"
    by (cases "pop ms h q") auto
  have t: "queue q' = tl (queue q)" using pop_queue [of ms h q] by (simp add: p)
  from Suc.IH [of ms' q'] show ?case
    by (auto simp add: p t drop_Suc split: prod.splits)
qed

text \<open>
  C4.  Pushing \<open>items\<close> appends them, in order, at the end of the list.  The first \<open>n\<close>
  rounds of \<^verbatim>\<open>get()\<close> and \<^verbatim>\<open>pop()\<close> then see, and remove, the first \<open>n\<close> items of the list
  in their order.  On a queue that was empty, \<open>length items\<close> rounds see exactly \<open>items\<close>,
  in push order, and leave the queue empty.  This is about the list in memory and holds
  whatever the storage calls inside \<^verbatim>\<open>push\<close> and \<^verbatim>\<open>pop\<close> do.
\<close>

theorem pushes_then_pops_are_fifo:
  assumes "push_all py ms h q items = (ms1, q1)"
  shows "queue q1 = queue q @ items
    \<and> (\<forall>n \<le> length (queue q1). fst (pop_all n ms1 h q1) = map Some (take n (queue q1)))
    \<and> (\<forall>n. queue (snd (snd (pop_all n ms1 h q1))) = drop n (queue q1))
    \<and> (queue q = [] \<longrightarrow>
          fst (pop_all (length items) ms1 h q1) = map Some items
        \<and> queue (snd (snd (pop_all (length items) ms1 h q1))) = [])"
proof -
  have q1: "queue q1 = queue q @ items"
    using push_all_queue [of py ms h q items] by (simp add: assms)
  show ?thesis
    using pop_all_seen [of "length items" q1 ms1 h]
    by (simp add: q1 pop_all_seen pop_all_queue)
qed

theorem pushes_then_pops_are_fifo_witness:
  "queue queue_A = []
   \<and> queue (snd (push_all exact_py (Some store_ac) heap_abc queue_A [0, 1, 2])) = [0, 1, 2]
   \<and> fst (pop_all 3 (fst (push_all exact_py (Some store_ac) heap_abc queue_A [0, 1, 2])) heap_abc
            (snd (push_all exact_py (Some store_ac) heap_abc queue_A [0, 1, 2])))
       = [Some 0, Some 1, Some 2]"
proof -
  obtain ms1 q1
    where run: "push_all exact_py (Some store_ac) heap_abc queue_A [0, 1, 2] = (ms1, q1)"
    by (cases "push_all exact_py (Some store_ac) heap_abc queue_A [0, 1, 2]") auto
  have e: "queue queue_A = []" by (simp add: queue_A_def)
  show ?thesis
    unfolding run fst_conv snd_conv
    using pushes_then_pops_are_fifo [OF run] e
    by (auto simp add: numeral_3_eq_3 simp del: pop_all.simps)
qed

section \<open>The storage table\<close>

text \<open>
  C8.  The claim: no two stored records share a uuid, and \<^verbatim>\<open>push\<close> preserves that.  The
  table has no \<^verbatim>\<open>UNIQUE\<close> column and \<^verbatim>\<open>push\<close> is a plain \<^verbatim>\<open>INSERT\<close>: pushing the item \<open>a\<close>
  for the queue \<^verbatim>\<open>"jobs"\<close> and again for the queue \<^verbatim>\<open>"mail"\<close> on a new store succeeds
  twice and leaves two rows with the uuid \<open>a\<close>.
\<close>

theorem push_twice_stores_one_uuid_twice:
  "fst (storage_push exact_py ''jobs'' item_a (storage_init None)) = None
   \<and> fst (storage_push exact_py ''mail'' item_a
            (snd (storage_push exact_py ''jobs'' item_a (storage_init None)))) = None
   \<and> map row_uuid (items_table
        (snd (storage_push exact_py ''mail'' item_a
               (snd (storage_push exact_py ''jobs'' item_a (storage_init None))))))
       = [''a'', ''a'']
   \<and> \<not> distinct (map row_uuid (items_table
        (snd (storage_push exact_py ''mail'' item_a
               (snd (storage_push exact_py ''jobs'' item_a (storage_init None)))))))"
  by (simp add: storage_push_def bind_insert_def fits_int64_def execute_def commit_def
      storage_init_def test_format_def prepare_format_def sweep_def row_of_item_def item_a_def
      exact_py_def)

text \<open>
  C8, as the code has it.  On a store whose uuids are pairwise different and whose
  statements complete: a \<^verbatim>\<open>push\<close> whose parameters do not bind (flags beyond 64 bits, a
  ttl that SQLite refuses) raises and leaves the table as it was; a \<^verbatim>\<open>push\<close> whose
  parameters bind appends the record whatever its uuid, and the uuids are pairwise
  different afterwards exactly when the pushed uuid was not stored yet.  \<^verbatim>\<open>delete_items\<close>
  and \<^verbatim>\<open>update_items_ttl\<close> keep the uuids pairwise different, whatever they are given and
  whether they return or raise.
\<close>

theorem push_keeps_uuids_unique_only_if_fresh:
  assumes uniq: "distinct (map row_uuid (items_table s))" and ok: "healthy s"
  shows "(\<forall>e. bind_insert py qname it = Inl e \<longrightarrow> storage_push py qname it s = (Some e, s))
    \<and> (\<forall>t. py_real_column py (ttl it) = Inr t \<and> fits_int64 (flags it) \<longrightarrow>
          storage_push py qname it s
            = (None, s\<lparr>items_table := items_table s @ [row_of_item qname it t]\<rparr>)
        \<and> distinct (map row_uuid (items_table (snd (storage_push py qname it s))))
            = (uuid it \<notin> row_uuid ` set (items_table s)))
    \<and> distinct (map row_uuid (items_table (snd (delete_items h objs s))))
    \<and> distinct (map row_uuid (items_table (snd (update_items_ttl py h items s))))"
proof (intro conjI allI impI)
  fix e assume "bind_insert py qname it = Inl e"
  then show "storage_push py qname it s = (Some e, s)"
    using ok by (simp add: storage_push_unbound healthy_def)
next
  fix t assume b: "py_real_column py (ttl it) = Inr t \<and> fits_int64 (flags it)"
  then show p: "storage_push py qname it s
            = (None, s\<lparr>items_table := items_table s @ [row_of_item qname it t]\<rparr>)"
    using ok by (simp add: storage_push_healthy)
  show "distinct (map row_uuid (items_table (snd (storage_push py qname it s))))
            = (uuid it \<notin> row_uuid ` set (items_table s))"
    using uniq by (simp add: p row_of_item_def)
next
  show "distinct (map row_uuid (items_table (snd (delete_items h objs s))))"
    using uniq by (rule delete_items_distinct)
next
  show "distinct (map row_uuid (items_table (snd (update_items_ttl py h items s))))"
    using uniq by (simp add: update_items_ttl_uuids)
qed

theorem push_keeps_uuids_unique_only_if_fresh_witness:
  "distinct (map row_uuid (items_table store_ac)) \<and> healthy store_ac
   \<and> py_real_column exact_py (ttl item_b) = Inr 3 \<and> fits_int64 (flags item_b)
   \<and> uuid item_b \<notin> row_uuid ` set (items_table store_ac)
   \<and> map row_uuid (items_table (snd (storage_push exact_py ''jobs'' item_b store_ac)))
       = [''a'', ''c'', ''b'']
   \<and> distinct (map row_uuid (items_table (snd (storage_push exact_py ''jobs'' item_b store_ac))))"
proof -
  have hyp: "distinct (map row_uuid (items_table store_ac))" "healthy store_ac"
    by (simp_all add: example_defs healthy_def row_of_item_def)
  have b: "py_real_column exact_py (ttl item_b) = Inr 3 \<and> fits_int64 (flags item_b)"
    by (simp add: example_defs fits_int64_def)
  have fresh: "uuid item_b \<notin> row_uuid ` set (items_table store_ac)"
    by (simp add: example_defs row_of_item_def)
  show ?thesis
    using push_keeps_uuids_unique_only_if_fresh [OF hyp, of exact_py "''jobs''" item_b] hyp b fresh
    by (simp add: example_defs row_of_item_def)
qed

section \<open>\<^verbatim>\<open>QueuesManager\<close>\<close>

lemma cleanup_loop_without_empty_queue:
  "\<forall>(n, q) \<in> set xs. len q \<noteq> 0 \<Longrightarrow> cleanup_loop xs m = (None, m)"
  by (induction xs) auto

lemma cleanup_loop_first_empty_queue:
  "\<forall>(n, q) \<in> set xs. len q \<noteq> 0 \<Longrightarrow> len q0 = 0 \<Longrightarrow>
   cleanup_loop (xs @ (n0, q0) # ys) m = (Some RuntimeError, m\<lparr>queues := dict_del n0 (queues m)\<rparr>)"
  by (induction xs) auto

text \<open>
  C6.  The claim, and the docstring of \<^verbatim>\<open>cleanup\<close> (\<^verbatim>\<open>remove empty queues\<close>): every empty
  queue is deregistered, every other queue stays.  The code at the manager of the empty
  queue \<open>A\<close> and the queue \<open>B\<close> of three items: \<open>A\<close> is dropped and the call raises
  \<open>RuntimeError\<close>.  With a second empty queue \<open>C\<close> registered after \<open>B\<close>, the call raises
  at the same place and \<open>C\<close> stays registered.
\<close>

theorem cleanup_raises_at_the_first_empty_queue:
  "len queue_A = 0 \<and> len queue_B = 3 \<and> len queue_C = 0
   \<and> cleanup manager_AB = (Some RuntimeError, manager_AB\<lparr>queues := [(''B'', queue_B)]\<rparr>)
   \<and> cleanup manager_ABC
       = (Some RuntimeError, manager_ABC\<lparr>queues := [(''B'', queue_B), (''C'', queue_C)]\<rparr>)"
  by (simp add: cleanup_def dict_del_def manager_AB_def manager_ABC_def queue_A_def queue_B_def
      queue_C_def len_def)

text \<open>
  C7.  The claim: after \<^verbatim>\<open>close()\<close> every \<^verbatim>\<open>get_queue\<close> fails with a ManagerClosedError.  At
  the manager of the queue \<^verbatim>\<open>"jobs"\<close>: \<^verbatim>\<open>close()\<close> returns normally and \<^verbatim>\<open>get_queue("jobs")\<close>
  then raises \<open>AttributeError\<close>.
\<close>

theorem get_queue_after_close_is_not_ManagerClosedError:
  "fst (close manager_jobs) = None
   \<and> snd (snd (get_queue 200 ''jobs'' (fst (snd (close manager_jobs))) heap_abc))
       = Inl AttributeError
   \<and> snd (snd (get_queue 200 ''jobs'' (fst (snd (close manager_jobs))) heap_abc))
       \<noteq> Inl ManagerClosedError"
  by (simp add: get_queue_def close_def storage_close_def Queue_init_def
      load_persistent_data_def example_defs)

text \<open>
  C7, as the code has it.  After \<^verbatim>\<open>close()\<close> has been called, whether it returned or
  raised, the manager has no queue, and every \<^verbatim>\<open>get_queue\<close> fails in the constructor of the
  queue, registers nothing and creates no object.  The exception is the \<open>AttributeError\<close>
  of \<^verbatim>\<open>self.manager.storage.get_items\<close> on \<^verbatim>\<open>None\<close>, when \<^verbatim>\<open>close()\<close> found the storage open
  or the manager had no storage any more; it is the \<open>ProgrammingError\<close> of \<^verbatim>\<open>sqlite3\<close> when
  \<^verbatim>\<open>close()\<close> found the storage closed already, raised, and left it in place.
\<close>

theorem get_queue_after_close_raises:
  "get_queue now qname (fst (snd (close m))) h
     = (h, fst (snd (close m)),
        Inl (case storage m of
               None \<Rightarrow> AttributeError
             | Some s \<Rightarrow> if conn_open s then AttributeError else ProgrammingError))"
proof (cases "storage m")
  case None
  then show ?thesis
    by (simp add: get_queue_def close_def Queue_init_def load_persistent_data_def)
next
  case (Some s)
  show ?thesis
  proof (cases "conn_open s")
    case True
    then show ?thesis
      using Some
      by (simp add: get_queue_def close_def storage_close_def Queue_init_def
          load_persistent_data_def)
  next
    case False
    then show ?thesis
      using Some
      by (simp add: get_queue_def close_def storage_close_def Queue_init_def
          load_persistent_data_def get_items_def stmt_error_def)
  qed
qed

text \<open>
  The manager of the queue \<^verbatim>\<open>"jobs"\<close>, and the same manager after the owner of the storage
  has closed it.
\<close>

theorem get_queue_after_close_raises_witness:
  "get_queue 200 ''jobs'' (fst (snd (close manager_jobs))) heap_abc
     = (heap_abc, \<lparr>storage = None, queues = []\<rparr>, Inl AttributeError)
   \<and> fst (close (manager_jobs\<lparr>storage := Some (snd (storage_close store_ac))\<rparr>))
       = Some ProgrammingError
   \<and> snd (snd (get_queue 200 ''jobs''
        (fst (snd (close (manager_jobs\<lparr>storage := Some (snd (storage_close store_ac))\<rparr>))))
        heap_abc))
       = Inl ProgrammingError"
  using get_queue_after_close_raises [of 200 "''jobs''" manager_jobs heap_abc]
    get_queue_after_close_raises [of 200 "''jobs''"
      "manager_jobs\<lparr>storage := Some (snd (storage_close store_ac))\<rparr>" heap_abc]
  by (simp add: close_def storage_close_def example_defs)

section \<open>Loading from the storage\<close>

lemma item_of_row_of_item [simp]:
  "item_of_row (row_of_item n (it :: 'n Item) t) = it\<lparr>ttl := t\<rparr>"
  by (simp add: item_of_row_def row_of_item_def)

lemma get_items_loop_spec:
  "\<exists>new h'. get_items_loop rows acc h = (acc @ new, h')
     \<and> used h \<le> used h'
     \<and> (\<forall>r < used h. cells h' r = cells h r)
     \<and> map (cells h') new = map item_of_row rows
     \<and> (\<forall>r \<in> set new. used h \<le> r \<and> r < used h')
     \<and> distinct new"
proof (induction rows arbitrary: acc h)
  case Nil
  show ?case by simp
next
  case (Cons res rest)
  let ?h1 = "h\<lparr>cells := (cells h)(used h := item_of_row res), used := Suc (used h)\<rparr>"
  from Cons.IH [of "acc @ [used h]" ?h1]
  obtain new h'
    where run: "get_items_loop rest (acc @ [used h]) ?h1 = ((acc @ [used h]) @ new, h')"
    and u: "used ?h1 \<le> used h'"
    and keep: "\<forall>r < used ?h1. cells h' r = cells ?h1 r"
    and cont: "map (cells h') new = map item_of_row rest"
    and range: "\<forall>r \<in> set new. used ?h1 \<le> r \<and> r < used h'"
    and dist: "distinct new"
    by blast
  have "get_items_loop (res # rest) acc h = (acc @ (used h # new), h')"
    using run by (simp add: new_Item_def)
  moreover have "used h \<le> used h'" using u by simp
  moreover have "\<forall>r < used h. cells h' r = cells h r" using keep by simp
  moreover have "map (cells h') (used h # new) = map item_of_row (res # rest)"
    using cont keep by simp
  moreover have "\<forall>r \<in> set (used h # new). used h \<le> r \<and> r < used h'"
    using range u by auto
  moreover have "distinct (used h # new)"
    using dist range by auto
  ultimately show ?case by blast
qed

lemma Queue_init_healthy:
  assumes "healthy s"
  shows "\<exists>h' q. Queue_init now n (Some s) h = (h', Inr q)
     \<and> name q = n \<and> last_disconnect_absolute q = Some now
     \<and> used h \<le> used h'
     \<and> (\<forall>r < used h. cells h' r = cells h r)
     \<and> map (cells h') (queue q)
         = map item_of_row (filter (\<lambda>r. queue_name r = n) (items_table s))
     \<and> (\<forall>r \<in> set (queue q). r < used h')
     \<and> distinct (queue q)"
proof -
  from get_items_loop_spec [of "filter (\<lambda>r. queue_name r = n) (items_table s)" "[]" h]
  obtain new h'
    where run: "get_items_loop (filter (\<lambda>r. queue_name r = n) (items_table s)) [] h = (new, h')"
    and rest: "used h \<le> used h'" "\<forall>r < used h. cells h' r = cells h r"
      "map (cells h') new = map item_of_row (filter (\<lambda>r. queue_name r = n) (items_table s))"
      "\<forall>r \<in> set new. used h \<le> r \<and> r < used h'" "distinct new"
    by auto
  have "Queue_init now n (Some s) h
      = (h', Inr \<lparr>name = n, queue = new, last_disconnect_absolute = Some now\<rparr>)"
    using assms run
    by (simp add: Queue_init_def load_persistent_data_def get_items_def stmt_error_def
        healthy_def disconnect_def)
  then show ?thesis using rest by auto
qed

lemma get_queue_loaded:
  assumes ok: "healthy s" and st: "storage m = Some s" and inv: "loaded clock s h m"
  shows "\<exists>h' m' q. get_queue (clock n) n m h = (h', m', Inr q)
     \<and> storage m' = Some s \<and> loaded clock s h' m'
     \<and> map_of (queues m') n = Some q
     \<and> (\<forall>k v. map_of (queues m) k = Some v \<longrightarrow> map_of (queues m') k = Some v)"
proof (cases "map_of (queues m) n")
  case (Some q)
  then show ?thesis using st inv by (simp add: get_queue_def)
next
  case None
  from Queue_init_healthy [OF ok, of "clock n" n h]
  obtain h' q where run: "Queue_init (clock n) n (Some s) h = (h', Inr q)"
    and q: "name q = n" "last_disconnect_absolute q = Some (clock n)"
    and u: "used h \<le> used h'"
    and keep: "\<forall>r < used h. cells h' r = cells h r"
    and cont: "map (cells h') (queue q)
         = map item_of_row (filter (\<lambda>r. queue_name r = n) (items_table s))"
    and range: "\<forall>r \<in> set (queue q). r < used h'"
    by blast
  let ?m' = "m\<lparr>queues := queues m @ [(n, q)]\<rparr>"
  have g: "get_queue (clock n) n m h = (h', ?m', Inr q)"
    using None run st by (simp add: get_queue_def)
  have look: "map_of (queues ?m') k = (if k = n then Some q else map_of (queues m) k)" for k
    using None by (auto simp: map_add_def split: option.splits)
  have "loaded clock s h' ?m'"
    unfolding loaded_def
  proof (intro allI impI)
    fix k v assume kv: "map_of (queues ?m') k = Some v"
    show "name v = k \<and> last_disconnect_absolute v = Some (clock k)
        \<and> map (cells h') (queue v)
            = map item_of_row (filter (\<lambda>r. queue_name r = k) (items_table s))
        \<and> (\<forall>r \<in> set (queue v). r < used h')"
    proof (cases "k = n")
      case True
      then have "v = q" using kv look by simp
      then show ?thesis using True q cont range by simp
    next
      case False
      then have old: "map_of (queues m) k = Some v" using kv look by simp
      from inv [unfolded loaded_def] old
      have a: "name v = k" "last_disconnect_absolute v = Some (clock k)"
        "map (cells h) (queue v)
           = map item_of_row (filter (\<lambda>r. queue_name r = k) (items_table s))"
        "\<forall>r \<in> set (queue v). r < used h"
        by blast+
      have "map (cells h') (queue v) = map (cells h) (queue v)"
        using a(4) keep by simp
      then show ?thesis using a u by auto
    qed
  qed
  moreover have "\<forall>k v. map_of (queues m) k = Some v \<longrightarrow> map_of (queues ?m') k = Some v"
    using look None by auto
  ultimately show ?thesis using g st look None by auto
qed

lemma load_loop_loaded:
  assumes ok: "healthy s"
  shows "storage m = Some s \<Longrightarrow> loaded clock s h m \<Longrightarrow>
     \<exists>h' m'. load_loop clock ns m h = (h', m', None)
       \<and> storage m' = Some s \<and> loaded clock s h' m'
       \<and> (\<forall>n \<in> set ns. map_of (queues m') n \<noteq> None)
       \<and> (\<forall>k v. map_of (queues m) k = Some v \<longrightarrow> map_of (queues m') k = Some v)"
proof (induction ns arbitrary: m h)
  case Nil
  then show ?case by simp
next
  case (Cons n ns)
  from get_queue_loaded [OF ok Cons.prems, of n]
  obtain h1 m1 q where g: "get_queue (clock n) n m h = (h1, m1, Inr q)"
    and st1: "storage m1 = Some s" and inv1: "loaded clock s h1 m1"
    and here: "map_of (queues m1) n = Some q"
    and mono1: "\<forall>k v. map_of (queues m) k = Some v \<longrightarrow> map_of (queues m1) k = Some v"
    by blast
  from Cons.IH [OF st1 inv1]
  obtain h' m' where l: "load_loop clock ns m1 h1 = (h', m', None)"
    and st': "storage m' = Some s" and inv': "loaded clock s h' m'"
    and all: "\<forall>n \<in> set ns. map_of (queues m') n \<noteq> None"
    and mono: "\<forall>k v. map_of (queues m1) k = Some v \<longrightarrow> map_of (queues m') k = Some v"
    by blast
  have "load_loop clock (n # ns) m h = (h', m', None)" using g l by simp
  moreover have "\<forall>k \<in> set (n # ns). map_of (queues m') k \<noteq> None"
    using all here mono by auto
  moreover have "\<forall>k v. map_of (queues m) k = Some v \<longrightarrow> map_of (queues m') k = Some v"
    using mono1 mono by blast
  ultimately show ?case using st' inv' by blast
qed

lemma QueuesManager_init_loaded:
  assumes ok: "healthy s"
  shows "\<exists>h' m. QueuesManager_init clock s h = (h', Inr m)
       \<and> storage m = Some s \<and> loaded clock s h' m
       \<and> (\<forall>n \<in> queue_name ` set (items_table s). map_of (queues m) n \<noteq> None)"
proof -
  have "loaded clock s h \<lparr>storage = Some s, queues = []\<rparr>" by (simp add: loaded_def)
  from load_loop_loaded [OF ok _ this, of "sort (remdups (map queue_name (items_table s)))"]
  obtain h' m where "load_loop clock (sort (remdups (map queue_name (items_table s))))
        \<lparr>storage = Some s, queues = []\<rparr> h = (h', m, None)"
    "storage m = Some s" "loaded clock s h' m"
    "\<forall>n \<in> set (sort (remdups (map queue_name (items_table s)))). map_of (queues m) n \<noteq> None"
    by auto
  then show ?thesis
    using ok
    by (auto simp: QueuesManager_init_def load_from_storage_def get_queues_def stmt_error_def
        healthy_def)
qed

text \<open>
  C5.  The claim: after a restart the item comes back with its ttl decremented by the
  real time elapsed since the last disconnect.  The item \<open>a\<close> is pushed with a ttl of 5
  onto a queue disconnected at time 0; the manager is closed and a new one is constructed
  at time 100 over the stored rows; \<^verbatim>\<open>get_queue("jobs")\<close> at time 103 returns a queue that
  holds an item with the uuid and the data of \<open>a\<close>, and with a ttl of 5: neither the 103
  seconds since the first disconnect (which would give \<open>-98\<close>) nor the 3 seconds since
  the disconnect of the new queue (which would give 2) are taken off.
\<close>

theorem reloaded_ttl_is_not_decremented:
  "push exact_py (Some (storage_init None)) heap_abc jobs_new 0
     = (None, Some store_pushed, jobs_new\<lparr>queue := [0]\<rparr>)
   \<and> close \<lparr>storage = Some store_pushed, queues = [(''jobs'', jobs_new\<lparr>queue := [0]\<rparr>)]\<rparr>
       = (None, \<lparr>storage = None, queues = []\<rparr>, Some (snd (storage_close store_pushed)))
   \<and> QueuesManager_init (\<lambda>n. 100) store_restarted heap_new
       = (heap_restarted, Inr manager_restarted)
   \<and> get_queue 103 ''jobs'' manager_restarted heap_restarted
       = (heap_restarted, manager_restarted,
          Inr \<lparr>name = ''jobs'', queue = [0], last_disconnect_absolute = Some 100\<rparr>)
   \<and> uuid (cells heap_restarted 0) = ''a'' \<and> data (cells heap_restarted 0) = ''x''
   \<and> ttl (cells heap_abc 0) = 5
   \<and> ttl (cells heap_restarted 0) = 5
   \<and> py_sub exact_py 103 100 = Inr 3 \<and> py_sub exact_py 103 0 = Inr 103
   \<and> py_sub exact_py 5 3 = Inr 2 \<and> py_sub exact_py 5 103 = Inr (- 98)"
  by (simp add: push_def storage_push_def bind_insert_def fits_int64_def execute_def commit_def
      close_def load_defs restart_defs example_defs row_of_item_def persistent_def
      FLAG_PERSISTENT_def prepare_format_def)

text \<open>
  C5, as the code has it.  A persistent item whose flags fit 64 bits and whose ttl binds,
  pushed over a storage that completes its statements, gets its row; after the manager is
  closed, a new storage object opened on the stored rows and a new manager (in any heap
  \<open>h0\<close>, with any clock) hold under the same name a queue whose objects are the rows of
  that name; one of them has the uuid, the data and the flags the item was pushed with,
  and as its ttl the value \<open>t\<close> that the \<^verbatim>\<open>REAL\<close> column holds for the pushed ttl.
  Loading decrements nothing, and the new queue is disconnected at the time of its
  construction.
\<close>

theorem persistent_item_reloads_with_stored_ttl:
  assumes ok: "healthy s" and pers: "persistent (cells h item)"
    and bind: "py_real_column py (ttl (cells h item)) = Inr t"
    and fits: "fits_int64 (flags (cells h item))"
  shows "\<exists>s1 sc h2 m2 q2.
      push py (Some s) h q item = (None, Some s1, q\<lparr>queue := queue q @ [item]\<rparr>)
    \<and> close \<lparr>storage = Some s1, queues = qs\<rparr> = (None, \<lparr>storage = None, queues = []\<rparr>, Some sc)
    \<and> QueuesManager_init clock (storage_init (Some (items_table sc))) h0 = (h2, Inr m2)
    \<and> get_queue now (name q) m2 h2 = (h2, m2, Inr q2)
    \<and> name q2 = name q
    \<and> last_disconnect_absolute q2 = Some (clock (name q))
    \<and> map (cells h2) (queue q2)
        = map item_of_row (filter (\<lambda>r. queue_name r = name q) (items_table s1))
    \<and> (\<exists>r \<in> set (queue q2). cells h2 r = (cells h item)\<lparr>ttl := t\<rparr>)"
proof -
  let ?s1 = "s\<lparr>items_table := items_table s @ [row_of_item (name q) (cells h item) t]\<rparr>"
  let ?sc = "?s1\<lparr>conn_open := False\<rparr>"
  let ?s2 = "storage_init (Some (items_table ?sc))"
  have p: "push py (Some s) h q item = (None, Some ?s1, q\<lparr>queue := queue q @ [item]\<rparr>)"
    using ok pers bind fits by (simp add: push_def storage_push_healthy)
  have c: "close \<lparr>storage = Some ?s1, queues = qs\<rparr>
      = (None, \<lparr>storage = None, queues = []\<rparr>, Some ?sc)"
    using ok by (simp add: close_def storage_close_def healthy_def)
  have t2: "items_table ?s2 = items_table ?s1"
    by (simp add: storage_init_def test_format_def sweep_def)
  have ok2: "healthy ?s2" by (simp add: storage_init_def healthy_def)
  from QueuesManager_init_loaded [OF ok2, of clock h0]
  obtain h2 m2 where i: "QueuesManager_init clock ?s2 h0 = (h2, Inr m2)"
    and inv: "loaded clock ?s2 h2 m2"
    and all: "\<forall>n \<in> queue_name ` set (items_table ?s2). map_of (queues m2) n \<noteq> None"
    by blast
  have "name q \<in> queue_name ` set (items_table ?s2)"
    unfolding t2 by (simp add: row_of_item_def image_iff)
  with all obtain q2 where look: "map_of (queues m2) (name q) = Some q2" by auto
  have g: "get_queue now (name q) m2 h2 = (h2, m2, Inr q2)"
    using look by (simp add: get_queue_def)
  from inv [unfolded loaded_def] look
  have q2: "name q2 = name q" "last_disconnect_absolute q2 = Some (clock (name q))"
    and cont: "map (cells h2) (queue q2)
        = map item_of_row (filter (\<lambda>r. queue_name r = name q) (items_table ?s1))"
    unfolding t2 by blast+
  have "item_of_row (row_of_item (name q) (cells h item) t)
      \<in> set (map (cells h2) (queue q2))"
    unfolding cont by (simp add: row_of_item_def [of "name q"] image_iff del: item_of_row_of_item)
  then have "\<exists>r \<in> set (queue q2). cells h2 r = (cells h item)\<lparr>ttl := t\<rparr>" by auto
  with p c i g q2 cont show ?thesis by blast
qed

theorem persistent_item_reloads_with_stored_ttl_witness:
  "healthy (storage_init None :: real SqliteQueuesStorage) \<and> persistent (cells heap_abc 0)
   \<and> py_real_column exact_py (ttl (cells heap_abc 0)) = Inr 5
   \<and> fits_int64 (flags (cells heap_abc 0))
   \<and> (\<exists>s1 sc h2 m2 q2.
      push exact_py (Some (storage_init None)) heap_abc jobs_new 0
        = (None, Some s1, jobs_new\<lparr>queue := queue jobs_new @ [0]\<rparr>)
    \<and> close \<lparr>storage = Some s1, queues = [(''jobs'', jobs_new\<lparr>queue := [0]\<rparr>)]\<rparr>
        = (None, \<lparr>storage = None, queues = []\<rparr>, Some sc)
    \<and> QueuesManager_init (\<lambda>n. 100) (storage_init (Some (items_table sc))) heap_new
        = (h2, Inr m2)
    \<and> get_queue 103 (name jobs_new) m2 h2 = (h2, m2, Inr q2)
    \<and> name q2 = name jobs_new
    \<and> last_disconnect_absolute q2 = Some 100
    \<and> map (cells h2) (queue q2)
        = map item_of_row (filter (\<lambda>r. queue_name r = name jobs_new) (items_table s1))
    \<and> (\<exists>r \<in> set (queue q2). cells h2 r = (cells heap_abc 0)\<lparr>ttl := 5\<rparr>))"
proof -
  have hyp: "healthy (storage_init None :: real SqliteQueuesStorage)"
    "persistent (cells heap_abc 0)"
    "py_real_column exact_py (ttl (cells heap_abc 0)) = Inr 5"
    "fits_int64 (flags (cells heap_abc 0))"
    by (simp_all add: healthy_def storage_init_def example_defs persistent_def
        FLAG_PERSISTENT_def fits_int64_def)
  show ?thesis
    using persistent_item_reloads_with_stored_ttl [OF hyp, of jobs_new
        "[(''jobs'', jobs_new\<lparr>queue := [0]\<rparr>)]" "\<lambda>n. 100" heap_new 103] hyp
    by simp
qed

end
